theory Spec2Isabelle
  imports Main "HOL-Library.Word"
begin

unbundle bit_operations_syntax

section \<open>The L3 master device core (net/l3mdev/l3mdev.c)\<close>

text \<open>
  The file keeps a small table of per-type lookup callbacks (register, unregister,
  lookup), resolves the L3 master of a device, and rewrites the interface fields of a
  flow to the master's index. Its collaborators (the device model, the namespace index,
  the errno and flag macros) are declared in headers that are not part of the file; they
  enter the model as parameters or as the constants named below.
\<close>

subsection \<open>Constants and types from the headers\<close>

text \<open>
  The errno macros of \<^verbatim>\<open>errno-base.h\<close>, with their fixed Linux values. The
  functions return them negated.
\<close>

definition EINVAL :: int where
  "EINVAL = 22"

definition EBUSY :: int where
  "EBUSY = 16"

text \<open>
  Modelled from the spec: the enumeration \<^verbatim>\<open>enum l3mdev_type\<close> is declared in a
  header outside the file; "the zero value means unspecified". The table is
  initialised with zeros and an empty slot is recognised by this value. The largest
  tag, \<^verbatim>\<open>L3MDEV_TYPE_MAX\<close>, is a parameter \<open>tmax\<close> of every function that
  uses it.
\<close>

definition L3MDEV_TYPE_UNSPEC :: int where
  "L3MDEV_TYPE_UNSPEC = 0"

text \<open>
  A function pointer is an address; two pointers are equal when the addresses are,
  whatever the functions compute. Address \<open>0\<close> is the null pointer. What the function at
  an address computes is given by a table \<open>cbs\<close> from addresses to functions of the
  namespace and the table id.
\<close>

type_synonym fnptr = nat

abbreviation (input) NULL :: fnptr where
  "NULL \<equiv> 0"

type_synonym u32 = "32 word"

type_synonym 'n callbacks = "fnptr \<Rightarrow> 'n \<Rightarrow> u32 \<Rightarrow> int"

subsection \<open>The handler table\<close>

record l3mdev_handler =
  l3type :: int
  dev_ifindex_lookup_by_table_id :: fnptr

text \<open>
  \<^verbatim>\<open>static struct l3mdev_handler l3mdev_handlers[L3MDEV_TYPE_MAX + 1] = { 0, };\<close>
\<close>

definition l3mdev_handlers_init :: "nat \<Rightarrow> l3mdev_handler list" where
  "l3mdev_handlers_init tmax =
     replicate (tmax + 1) \<lparr>l3type = 0, dev_ifindex_lookup_by_table_id = NULL\<rparr>"

definition l3mdev_check_type :: "nat \<Rightarrow> int \<Rightarrow> int" where
  "l3mdev_check_type tmax l3t =
     (if l3t \<le> L3MDEV_TYPE_UNSPEC \<or> l3t > int tmax then - EINVAL else 0)"

text \<open>
  Register and unregister take the table and return the result code with the table
  after the call. The spin lock makes the body atomic with respect to other writers,
  so a call is one step on the table.
\<close>

definition l3mdev_table_lookup_register ::
  "nat \<Rightarrow> int \<Rightarrow> fnptr \<Rightarrow> l3mdev_handler list \<Rightarrow> int \<times> l3mdev_handler list" where
  "l3mdev_table_lookup_register tmax l3t fn hs =
     (let res = l3mdev_check_type tmax l3t in
      if res \<noteq> 0 then (res, hs)
      else
        let hdlr = hs ! nat l3t in
        if l3type hdlr \<noteq> L3MDEV_TYPE_UNSPEC \<or> dev_ifindex_lookup_by_table_id hdlr \<noteq> NULL
        then (- EBUSY, hs)
        else (0, hs[nat l3t := hdlr\<lparr>l3type := l3t, dev_ifindex_lookup_by_table_id := fn\<rparr>]))"

definition l3mdev_table_lookup_unregister ::
  "nat \<Rightarrow> int \<Rightarrow> fnptr \<Rightarrow> l3mdev_handler list \<Rightarrow> int \<times> l3mdev_handler list" where
  "l3mdev_table_lookup_unregister tmax l3t fn hs =
     (let res = l3mdev_check_type tmax l3t in
      if res \<noteq> 0 then (res, hs)
      else
        let hdlr = hs ! nat l3t in
        if l3type hdlr \<noteq> l3t \<or> dev_ifindex_lookup_by_table_id hdlr \<noteq> fn
        then (- EINVAL, hs)
        else (0, hs[nat l3t := hdlr\<lparr>l3type := L3MDEV_TYPE_UNSPEC,
                                     dev_ifindex_lookup_by_table_id := NULL\<rparr>]))"

text \<open>
  The lookup returns the list of callback invocations it made (address, namespace,
  table id) together with its return value, so that "invokes the callback" is a
  statement about the first component.
\<close>

type_synonym 'n invocation = "fnptr \<times> 'n \<times> u32"

definition l3mdev_ifindex_lookup_by_table_id ::
  "nat \<Rightarrow> 'n callbacks \<Rightarrow> l3mdev_handler list \<Rightarrow> 'n \<Rightarrow> u32 \<Rightarrow> int
     \<Rightarrow> 'n invocation list \<times> int" where
  "l3mdev_ifindex_lookup_by_table_id tmax cbs hs net table_id l3t =
     (let res = l3mdev_check_type tmax l3t in
      if res \<noteq> 0 then ([], res)
      else
        let lookup = dev_ifindex_lookup_by_table_id (hs ! nat l3t) in
        if lookup = NULL then ([], - EINVAL)
        else ([(lookup, net, table_id)], cbs lookup net table_id))"

text \<open>
  The invariant of the table as the specification words it: in every slot the callback
  is set exactly when the stored tag is the slot's index.
\<close>

definition slot_registered_iff_own_tag :: "l3mdev_handler list \<Rightarrow> bool" where
  "slot_registered_iff_own_tag hs =
     (\<forall>i \<in> set [0 ..< length hs].
        (dev_ifindex_lookup_by_table_id (hs ! i) \<noteq> NULL) = (l3type (hs ! i) = int i))"

text \<open>
  The invariant the code keeps: the table has one slot for each value \<open>0 .. tmax\<close>; slot
  \<open>0\<close> (the unspecified tag's) stays empty; in a slot of a valid tag the callback is set
  exactly when the stored tag is the slot's index, and the stored tag is never another
  slot's. So a tag is stored in at most one slot, its own.
\<close>

definition slot_ok :: "nat \<Rightarrow> l3mdev_handler \<Rightarrow> bool" where
  "slot_ok i h =
     (if i = 0
      then l3type h = L3MDEV_TYPE_UNSPEC \<and> dev_ifindex_lookup_by_table_id h = NULL
      else (dev_ifindex_lookup_by_table_id h \<noteq> NULL) = (l3type h = int i)
           \<and> (l3type h = L3MDEV_TYPE_UNSPEC \<or> l3type h = int i))"

definition registry_inv :: "nat \<Rightarrow> l3mdev_handler list \<Rightarrow> bool" where
  "registry_inv tmax hs =
     (length hs = tmax + 1 \<and> (\<forall>i \<in> set [0 ..< length hs]. slot_ok i (hs ! i)))"

subsection \<open>The device model\<close>

text \<open>
  The collaborators the file calls, as a record of functions: devices are values of
  type \<open>'d\<close>, a nullable device pointer is a \<open>'d option\<close>, namespaces are values of
  type \<open>'n\<close>.
\<close>

record ('n, 'd) netdev_model =
  dev_get_by_index_rcu :: "'n \<Rightarrow> int \<Rightarrow> 'd option"
  netif_is_l3_master :: "'d \<Rightarrow> bool"
  netif_is_l3_slave :: "'d \<Rightarrow> bool"
  netdev_master_upper_dev_get_rcu :: "'d \<Rightarrow> 'd option"
  netdev_master_upper_dev_get :: "'d \<Rightarrow> 'd option"
  ifindex :: "'d \<Rightarrow> int"

definition l3mdev_master_ifindex_rcu :: "('n, 'd) netdev_model \<Rightarrow> 'd option \<Rightarrow> int" where
  "l3mdev_master_ifindex_rcu m dev =
     (case dev of
        None \<Rightarrow> 0
      | Some d \<Rightarrow>
          if netif_is_l3_master m d then ifindex m d
          else if netif_is_l3_slave m d then
            (case netdev_master_upper_dev_get_rcu m d of
               Some master \<Rightarrow> ifindex m master
             | None \<Rightarrow> 0)
          else 0)"

text \<open>
  The loop of \<^verbatim>\<open>l3mdev_master_upper_ifindex_by_index_rcu\<close>:
  \<^verbatim>\<open>while (dev && !netif_is_l3_master(dev)) dev = netdev_master_upper_dev_get(dev);\<close>
  It has no bound, so it is a partial function: \<open>None\<close> is "does not return",
  \<open>Some dev\<close> is the pointer the loop ends with.
\<close>

partial_function (option) l3mdev_upper_loop ::
  "('n, 'd) netdev_model \<Rightarrow> 'd option \<Rightarrow> 'd option option" where
  "l3mdev_upper_loop m dev =
     (case dev of
        None \<Rightarrow> Some None
      | Some d \<Rightarrow>
          if netif_is_l3_master m d then Some (Some d)
          else l3mdev_upper_loop m (netdev_master_upper_dev_get m d))"

definition l3mdev_master_upper_ifindex_by_index_rcu ::
  "('n, 'd) netdev_model \<Rightarrow> 'n \<Rightarrow> int \<Rightarrow> int option" where
  "l3mdev_master_upper_ifindex_by_index_rcu m net idx =
     (case l3mdev_upper_loop m (dev_get_by_index_rcu m net idx) of
        None \<Rightarrow> None
      | Some dev \<Rightarrow> Some (case dev of Some d \<Rightarrow> ifindex m d | None \<Rightarrow> 0))"

text \<open>The device reached from \<open>dev\<close> after \<open>k\<close> steps up the master relation.\<close>

fun upper_chain :: "('n, 'd) netdev_model \<Rightarrow> nat \<Rightarrow> 'd option \<Rightarrow> 'd option" where
  "upper_chain m 0 dev = dev"
| "upper_chain m (Suc k) dev =
     upper_chain m k (case dev of None \<Rightarrow> None | Some d \<Rightarrow> netdev_master_upper_dev_get m d)"

text \<open>The walk goes on at a device that exists and is not an L3 master.\<close>

definition walk_continues :: "('n, 'd) netdev_model \<Rightarrow> 'd option \<Rightarrow> bool" where
  "walk_continues m dev = (case dev of None \<Rightarrow> False | Some d \<Rightarrow> \<not> netif_is_l3_master m d)"

subsection \<open>The flow\<close>

text \<open>
  The fields of \<^verbatim>\<open>struct flowi\<close> the file touches; every other field of the flow is
  in the record's extension part. The flag \<^verbatim>\<open>FLOWI_FLAG_SKIP_NH_OIF\<close> is a macro of
  a header outside the file and is the parameter \<open>skip_nh_oif\<close>.
\<close>

record flowi =
  flowi_oif :: int
  flowi_iif :: int
  flowi_flags :: "8 word"

text \<open>The second block of \<^verbatim>\<open>l3mdev_update_flow\<close>, which \<^verbatim>\<open>goto out\<close> skips.\<close>

definition l3mdev_update_flow_iif ::
  "('n, 'd) netdev_model \<Rightarrow> 8 word \<Rightarrow> 'n \<Rightarrow> 'a flowi_scheme \<Rightarrow> 'a flowi_scheme" where
  "l3mdev_update_flow_iif m skip_nh_oif net fl =
     (if flowi_iif fl \<noteq> 0 then
        (case dev_get_by_index_rcu m net (flowi_iif fl) of
           Some dev \<Rightarrow>
             (let idx = l3mdev_master_ifindex_rcu m (Some dev) in
              if idx \<noteq> 0
              then fl\<lparr>flowi_iif := idx, flowi_flags := flowi_flags fl OR skip_nh_oif\<rparr>
              else fl)
         | None \<Rightarrow> fl)
      else fl)"

definition l3mdev_update_flow ::
  "('n, 'd) netdev_model \<Rightarrow> 8 word \<Rightarrow> 'n \<Rightarrow> 'a flowi_scheme \<Rightarrow> 'a flowi_scheme" where
  "l3mdev_update_flow m skip_nh_oif net fl =
     (if flowi_oif fl \<noteq> 0 then
        (case dev_get_by_index_rcu m net (flowi_oif fl) of
           Some dev \<Rightarrow>
             (let idx = l3mdev_master_ifindex_rcu m (Some dev) in
              if idx \<noteq> 0
              then fl\<lparr>flowi_oif := idx, flowi_flags := flowi_flags fl OR skip_nh_oif\<rparr>
              else l3mdev_update_flow_iif m skip_nh_oif net fl)
         | None \<Rightarrow> l3mdev_update_flow_iif m skip_nh_oif net fl)
      else l3mdev_update_flow_iif m skip_nh_oif net fl)"

text \<open>
  "The handle resolves to a governing master": the handle is set, the namespace has a
  device under it, and \<^verbatim>\<open>l3mdev_master_ifindex_rcu\<close> of that device is not zero.
\<close>

definition governing_master :: "('n, 'd) netdev_model \<Rightarrow> 'n \<Rightarrow> int \<Rightarrow> int option" where
  "governing_master m net idx =
     (if idx = 0 then None
      else
        (case dev_get_by_index_rcu m net idx of
           None \<Rightarrow> None
         | Some dev \<Rightarrow>
             (let x = l3mdev_master_ifindex_rcu m (Some dev) in
              if x = 0 then None else Some x)))"

subsection \<open>Concrete tables used in the examples\<close>

text \<open>A table for one valid tag, with the callback at address \<open>7\<close> registered for it.\<close>

definition hs_one :: "l3mdev_handler list" where
  "hs_one = [\<lparr>l3type = 0, dev_ifindex_lookup_by_table_id = NULL\<rparr>,
             \<lparr>l3type = 1, dev_ifindex_lookup_by_table_id = 7\<rparr>]"

text \<open>The function at address \<open>7\<close> maps table id \<open>7\<close> to interface \<open>42\<close>.\<close>

definition cbs_one :: "nat callbacks" where
  "cbs_one f n t = (if f = 7 \<and> t = 7 then 42 else 0)"


subsection \<open>The data model of devices\<close>

text \<open>
  What the specification's data model says of the devices of a namespace, as far as the
  flow rewriter depends on it: a handle identifies its device (the namespace resolves a
  handle to a device that carries this handle), and a slave is enslaved to a domain
  master, which is a device of the same namespace under its own handle.
\<close>

definition netdev_data_model :: "('n, 'd) netdev_model \<Rightarrow> 'n \<Rightarrow> bool" where
  "netdev_data_model m net =
     ((\<forall>i d. dev_get_by_index_rcu m net i = Some d \<longrightarrow> ifindex m d = i)
      \<and> (\<forall>i d u. dev_get_by_index_rcu m net i = Some d \<and> netif_is_l3_slave m d
              \<and> netdev_master_upper_dev_get_rcu m d = Some u \<longrightarrow>
            netif_is_l3_master m u \<and> dev_get_by_index_rcu m net (ifindex m u) = Some u))"

subsection \<open>Concrete device models and flows used in the examples\<close>

text \<open>
  Devices are numbered by their interface index. In \<open>vrf_model\<close> device \<open>42\<close> is an
  L3 master, device \<open>5\<close> is a slave of \<open>42\<close>, device \<open>8\<close> is a slave that has no master
  at the moment, and every other device is neither master nor slave.
\<close>

definition vrf_model :: "(unit, nat) netdev_model" where
  "vrf_model =
     \<lparr>dev_get_by_index_rcu = (\<lambda>net i. if i = 5 \<or> i = 8 \<or> i = 42 then Some (nat i) else None),
      netif_is_l3_master = (\<lambda>d. d = 42),
      netif_is_l3_slave = (\<lambda>d. d = 5 \<or> d = 8),
      netdev_master_upper_dev_get_rcu = (\<lambda>d. if d = 5 then Some 42 else None),
      netdev_master_upper_dev_get = (\<lambda>d. if d = 5 then Some 42 else None),
      ifindex = int\<rparr>"

text \<open>
  In \<open>chain_model\<close> device \<open>5\<close> is a slave of device \<open>6\<close>, which is not an L3 master but
  a slave of the L3 master \<open>42\<close>.
\<close>

definition chain_model :: "(unit, nat) netdev_model" where
  "chain_model =
     \<lparr>dev_get_by_index_rcu = (\<lambda>net i. if i = 5 \<or> i = 6 \<or> i = 42 then Some (nat i) else None),
      netif_is_l3_master = (\<lambda>d. d = 42),
      netif_is_l3_slave = (\<lambda>d. d = 5 \<or> d = 6),
      netdev_master_upper_dev_get_rcu = (\<lambda>d. if d = 5 then Some 6 else if d = 6 then Some 42 else None),
      netdev_master_upper_dev_get = (\<lambda>d. if d = 5 then Some 6 else if d = 6 then Some 42 else None),
      ifindex = int\<rparr>"

text \<open>
  In \<open>cyclic_model\<close> the only indexed device is \<open>9\<close>; no device is an L3 master and
  the master of every device is the device itself.
\<close>

definition cyclic_model :: "(unit, nat) netdev_model" where
  "cyclic_model =
     \<lparr>dev_get_by_index_rcu = (\<lambda>net i. if i = 9 then Some 9 else None),
      netif_is_l3_master = (\<lambda>d. False),
      netif_is_l3_slave = (\<lambda>d. False),
      netdev_master_upper_dev_get_rcu = (\<lambda>d. Some d),
      netdev_master_upper_dev_get = (\<lambda>d. Some d),
      ifindex = int\<rparr>"

text \<open>Flows over these models; the flag value \<open>4\<close> is used for the skip flag.\<close>

definition flow_oif5 :: flowi where
  "flow_oif5 = \<lparr>flowi_oif = 5, flowi_iif = 8, flowi_flags = 1\<rparr>"

definition flow_iif5 :: flowi where
  "flow_iif5 = \<lparr>flowi_oif = 0, flowi_iif = 5, flowi_flags = 1\<rparr>"

definition flow_none :: flowi where
  "flow_none = \<lparr>flowi_oif = 0, flowi_iif = 8, flowi_flags = 1\<rparr>"

section \<open>The handler table: register, unregister, lookup\<close>

lemmas registry_defs =
  l3mdev_table_lookup_register_def l3mdev_table_lookup_unregister_def
  l3mdev_ifindex_lookup_by_table_id_def l3mdev_check_type_def
  L3MDEV_TYPE_UNSPEC_def EINVAL_def EBUSY_def

subsection \<open>Preservation of the table invariant\<close>

lemma registry_inv_iff:
  "registry_inv tmax hs \<longleftrightarrow> length hs = tmax + 1 \<and> (\<forall>i \<le> tmax. slot_ok i (hs ! i))"
  by (auto simp: registry_inv_def)

lemma registry_inv_init: "registry_inv tmax (l3mdev_handlers_init tmax)"
  by (auto simp: registry_inv_iff l3mdev_handlers_init_def slot_ok_def L3MDEV_TYPE_UNSPEC_def)

lemma registry_inv_register:
  assumes "registry_inv tmax hs" and "fn \<noteq> NULL"
  shows "registry_inv tmax (snd (l3mdev_table_lookup_register tmax l3t fn hs))"
proof (cases "l3mdev_check_type tmax l3t = 0
    \<and> l3type (hs ! nat l3t) = L3MDEV_TYPE_UNSPEC
    \<and> dev_ifindex_lookup_by_table_id (hs ! nat l3t) = NULL")
  case False
  then have "snd (l3mdev_table_lookup_register tmax l3t fn hs) = hs"
    by (auto simp: l3mdev_table_lookup_register_def Let_def)
  with assms(1) show ?thesis by simp
next
  case True
  then have valid: "0 < l3t" "l3t \<le> int tmax"
    by (auto simp: l3mdev_check_type_def L3MDEV_TYPE_UNSPEC_def EINVAL_def split: if_splits)
  from True have reg: "snd (l3mdev_table_lookup_register tmax l3t fn hs) =
      hs[nat l3t := (hs ! nat l3t)\<lparr>l3type := l3t, dev_ifindex_lookup_by_table_id := fn\<rparr>]"
    by (simp add: l3mdev_table_lookup_register_def Let_def)
  have len: "length hs = tmax + 1" and slots: "\<And>i. i \<le> tmax \<Longrightarrow> slot_ok i (hs ! i)"
    using assms(1) by (simp_all add: registry_inv_iff)
  have "slot_ok i (hs[nat l3t := (hs ! nat l3t)\<lparr>l3type := l3t,
      dev_ifindex_lookup_by_table_id := fn\<rparr>] ! i)" if "i \<le> tmax" for i
  proof (cases "i = nat l3t")
    case True
    with valid len assms(2) show ?thesis by (simp add: slot_ok_def)
  next
    case False
    with slots [OF that] show ?thesis by simp
  qed
  with len show ?thesis by (simp add: reg registry_inv_iff)
qed

lemma registry_inv_unregister:
  assumes "registry_inv tmax hs"
  shows "registry_inv tmax (snd (l3mdev_table_lookup_unregister tmax l3t fn hs))"
proof (cases "l3mdev_check_type tmax l3t = 0
    \<and> l3type (hs ! nat l3t) = l3t
    \<and> dev_ifindex_lookup_by_table_id (hs ! nat l3t) = fn")
  case False
  then have "snd (l3mdev_table_lookup_unregister tmax l3t fn hs) = hs"
    by (auto simp: l3mdev_table_lookup_unregister_def Let_def)
  with assms(1) show ?thesis by simp
next
  case True
  then have valid: "0 < l3t" "l3t \<le> int tmax"
    by (auto simp: l3mdev_check_type_def L3MDEV_TYPE_UNSPEC_def EINVAL_def split: if_splits)
  from True have unreg: "snd (l3mdev_table_lookup_unregister tmax l3t fn hs) =
      hs[nat l3t := (hs ! nat l3t)\<lparr>l3type := L3MDEV_TYPE_UNSPEC,
                                   dev_ifindex_lookup_by_table_id := NULL\<rparr>]"
    by (simp add: l3mdev_table_lookup_unregister_def Let_def)
  have len: "length hs = tmax + 1" and slots: "\<And>i. i \<le> tmax \<Longrightarrow> slot_ok i (hs ! i)"
    using assms(1) by (simp_all add: registry_inv_iff)
  have "slot_ok i (hs[nat l3t := (hs ! nat l3t)\<lparr>l3type := L3MDEV_TYPE_UNSPEC,
      dev_ifindex_lookup_by_table_id := NULL\<rparr>] ! i)" if "i \<le> tmax" for i
  proof (cases "i = nat l3t")
    case True
    with valid len show ?thesis by (simp add: slot_ok_def L3MDEV_TYPE_UNSPEC_def)
  next
    case False
    with slots [OF that] show ?thesis by simp
  qed
  with len show ?thesis by (simp add: unreg registry_inv_iff)
qed

lemma registry_inv_unique:
  assumes "registry_inv tmax hs" and "i < length hs" and "j < length hs"
    and "l3type (hs ! i) = l3type (hs ! j)" and "l3type (hs ! i) \<noteq> L3MDEV_TYPE_UNSPEC"
  shows "i = j"
proof -
  have "slot_ok i (hs ! i)" "slot_ok j (hs ! j)"
    using assms(1,2,3) by (simp_all add: registry_inv_def)
  with assms(4,5) show ?thesis
    by (auto simp: slot_ok_def split: if_splits)
qed

subsection \<open>Lookup\<close>

text \<open>
  C2, as the specification states it: a lookup with an invalid tag, and a lookup for a
  tag with no callback, return zero. They do not: with one valid tag and the empty
  table, the lookup for tag \<open>0\<close> (invalid) and the lookup for tag \<open>1\<close> (valid, nothing
  registered) both return \<open>-EINVAL = -22\<close>, having invoked nothing.
\<close>

theorem lookup_no_callback_counterexample:
  "l3mdev_ifindex_lookup_by_table_id 1 (\<lambda>f n t. 0) (l3mdev_handlers_init 1) (0::nat) 7 0 = ([], - 22)
   \<and> l3mdev_ifindex_lookup_by_table_id 1 (\<lambda>f n t. 0) (l3mdev_handlers_init 1) (0::nat) 7 1 = ([], - 22)
   \<and> (- 22 :: int) \<noteq> 0"
  by (simp add: registry_defs l3mdev_handlers_init_def)

text \<open>
  C2, amended: the lookup returns \<open>-EINVAL\<close>, which is not zero, and invokes nothing when
  the tag is invalid (not above unspecified, or above the maximum) and when the tag is
  valid and its slot holds no callback; when the slot of a valid tag holds a callback,
  the lookup invokes that callback once, on the namespace and table id given, and
  returns its result.
\<close>

theorem lookup_result:
  "(l3t \<le> L3MDEV_TYPE_UNSPEC \<or> l3t > int tmax \<longrightarrow>
      l3mdev_ifindex_lookup_by_table_id tmax cbs hs net table_id l3t = ([], - EINVAL))
   \<and> (0 < l3t \<and> l3t \<le> int tmax \<and> dev_ifindex_lookup_by_table_id (hs ! nat l3t) = NULL \<longrightarrow>
      l3mdev_ifindex_lookup_by_table_id tmax cbs hs net table_id l3t = ([], - EINVAL))
   \<and> (0 < l3t \<and> l3t \<le> int tmax \<and> dev_ifindex_lookup_by_table_id (hs ! nat l3t) \<noteq> NULL \<longrightarrow>
      l3mdev_ifindex_lookup_by_table_id tmax cbs hs net table_id l3t =
        ([(dev_ifindex_lookup_by_table_id (hs ! nat l3t), net, table_id)],
         cbs (dev_ifindex_lookup_by_table_id (hs ! nat l3t)) net table_id))
   \<and> - EINVAL \<noteq> 0"
  by (simp add: registry_defs Let_def)

theorem lookup_result_witness:
  "((2::int) > int 1
     \<and> l3mdev_ifindex_lookup_by_table_id 1 cbs_one hs_one 0 7 2 = ([], - EINVAL))
   \<and> ((0::int) < 1 \<and> (1::int) \<le> int 1
     \<and> dev_ifindex_lookup_by_table_id (l3mdev_handlers_init 1 ! nat 1) = NULL
     \<and> l3mdev_ifindex_lookup_by_table_id 1 cbs_one (l3mdev_handlers_init 1) 0 7 1 = ([], - EINVAL))
   \<and> (dev_ifindex_lookup_by_table_id (hs_one ! nat 1) \<noteq> NULL
     \<and> l3mdev_ifindex_lookup_by_table_id 1 cbs_one hs_one 0 7 1 = ([(7, 0, 7)], 42))"
  using lookup_result [of 2 1 cbs_one hs_one 0 7]
    lookup_result [of 1 1 cbs_one "l3mdev_handlers_init 1" 0 7]
    lookup_result [of 1 1 cbs_one hs_one 0 7]
  by (simp add: hs_one_def cbs_one_def l3mdev_handlers_init_def)

text \<open>
  After a successful unregister the slot is empty, so a lookup that starts on the table
  after the call invokes nothing. (Lookups that run concurrently with the call, and the
  wait for them, are outside this sequential model.)
\<close>

lemma unregister_then_lookup:
  assumes "length hs = tmax + 1"
    and "fst (l3mdev_table_lookup_unregister tmax l3t fn hs) = 0"
  shows "l3mdev_ifindex_lookup_by_table_id tmax cbs
           (snd (l3mdev_table_lookup_unregister tmax l3t fn hs)) net table_id l3t = ([], - EINVAL)"
proof (cases "l3mdev_check_type tmax l3t = 0")
  case False
  then show ?thesis
    by (auto simp: l3mdev_ifindex_lookup_by_table_id_def l3mdev_check_type_def Let_def)
next
  case True
  then have "nat l3t < length hs"
    using assms(1)
    by (auto simp: l3mdev_check_type_def L3MDEV_TYPE_UNSPEC_def EINVAL_def split: if_splits)
  with True assms(2) show ?thesis
    by (auto simp: l3mdev_table_lookup_unregister_def l3mdev_ifindex_lookup_by_table_id_def
        Let_def EINVAL_def split: if_splits)
qed

subsection \<open>Register followed by lookup\<close>

text \<open>
  C3: for a valid tag whose slot is empty and a callback \<open>fn\<close> (a function pointer that
  is not null), register returns \<open>0\<close>, and the lookup for the tag on the table after it
  invokes \<open>fn\<close> once, on the namespace and table id of the lookup, and returns what \<open>fn\<close>
  returns.
\<close>

theorem register_then_lookup:
  assumes "0 < l3t" and "l3t \<le> int tmax" and "length hs = tmax + 1"
    and "l3type (hs ! nat l3t) = L3MDEV_TYPE_UNSPEC"
    and "dev_ifindex_lookup_by_table_id (hs ! nat l3t) = NULL"
    and "fn \<noteq> NULL"
  shows "fst (l3mdev_table_lookup_register tmax l3t fn hs) = 0
       \<and> l3mdev_ifindex_lookup_by_table_id tmax cbs
            (snd (l3mdev_table_lookup_register tmax l3t fn hs)) net table_id l3t
          = ([(fn, net, table_id)], cbs fn net table_id)"
proof -
  have valid: "l3mdev_check_type tmax l3t = 0"
    using assms(1,2) by (simp add: l3mdev_check_type_def L3MDEV_TYPE_UNSPEC_def)
  have idx: "nat l3t < length hs"
    using assms(1,2,3) by simp
  have reg: "l3mdev_table_lookup_register tmax l3t fn hs =
      (0, hs[nat l3t := (hs ! nat l3t)\<lparr>l3type := l3t, dev_ifindex_lookup_by_table_id := fn\<rparr>])"
    using valid assms(4,5) by (simp add: l3mdev_table_lookup_register_def Let_def)
  show ?thesis
    using valid idx assms(6) by (simp add: reg l3mdev_ifindex_lookup_by_table_id_def Let_def)
qed

theorem register_then_lookup_witness:
  "(0::int) < 2 \<and> (2::int) \<le> int 2 \<and> length (l3mdev_handlers_init 2) = 2 + 1
   \<and> l3type (l3mdev_handlers_init 2 ! nat 2) = L3MDEV_TYPE_UNSPEC
   \<and> dev_ifindex_lookup_by_table_id (l3mdev_handlers_init 2 ! nat 2) = NULL
   \<and> (5::fnptr) \<noteq> NULL
   \<and> fst (l3mdev_table_lookup_register 2 2 5 (l3mdev_handlers_init 2)) = 0
   \<and> l3mdev_ifindex_lookup_by_table_id 2 (\<lambda>f (n::nat) t. if f = 5 \<and> t = 7 then 42 else 0)
        (snd (l3mdev_table_lookup_register 2 2 5 (l3mdev_handlers_init 2))) 0 7 2
      = ([(5, 0, 7)], 42)"
proof -
  have h: "(0::int) < 2" "(2::int) \<le> int 2" "length (l3mdev_handlers_init 2) = 2 + 1"
    "l3type (l3mdev_handlers_init 2 ! nat 2) = L3MDEV_TYPE_UNSPEC"
    "dev_ifindex_lookup_by_table_id (l3mdev_handlers_init 2 ! nat 2) = NULL"
    "(5::fnptr) \<noteq> NULL"
    by (simp_all add: l3mdev_handlers_init_def L3MDEV_TYPE_UNSPEC_def)
  show ?thesis
    using h register_then_lookup [OF h, of "\<lambda>f (n::nat) t. if f = 5 \<and> t = 7 then 42 else 0" 0 7]
    by simp
qed

subsection \<open>Failing calls\<close>

text \<open>
  C4: register returns \<open>-EINVAL\<close> (InvalidTag) for a tag that is unspecified or above the
  maximum, and \<open>-EBUSY\<close> (AlreadyRegistered) for a valid tag whose slot already stores
  that tag or already holds a callback; unregister returns \<open>-EINVAL\<close> (NotRegistered) for
  a valid tag when the slot's pair of tag and callback is not the pair given; and a
  register or unregister call that returns a non-zero code leaves the table as it was.
\<close>

theorem register_unregister_errors:
  "(l3t \<le> L3MDEV_TYPE_UNSPEC \<or> l3t > int tmax \<longrightarrow>
      l3mdev_table_lookup_register tmax l3t fn hs = (- EINVAL, hs))
   \<and> (0 < l3t \<and> l3t \<le> int tmax
        \<and> (l3type (hs ! nat l3t) = l3t \<or> dev_ifindex_lookup_by_table_id (hs ! nat l3t) \<noteq> NULL) \<longrightarrow>
      l3mdev_table_lookup_register tmax l3t fn hs = (- EBUSY, hs))
   \<and> (0 < l3t \<and> l3t \<le> int tmax
        \<and> (l3type (hs ! nat l3t), dev_ifindex_lookup_by_table_id (hs ! nat l3t)) \<noteq> (l3t, fn) \<longrightarrow>
      l3mdev_table_lookup_unregister tmax l3t fn hs = (- EINVAL, hs))
   \<and> (fst (l3mdev_table_lookup_register tmax l3t fn hs) \<noteq> 0 \<longrightarrow>
      snd (l3mdev_table_lookup_register tmax l3t fn hs) = hs)
   \<and> (fst (l3mdev_table_lookup_unregister tmax l3t fn hs) \<noteq> 0 \<longrightarrow>
      snd (l3mdev_table_lookup_unregister tmax l3t fn hs) = hs)"
  by (auto simp: registry_defs Let_def)

theorem register_unregister_errors_witness:
  "(0 \<le> L3MDEV_TYPE_UNSPEC
     \<and> l3mdev_table_lookup_register 1 0 9 hs_one = (- EINVAL, hs_one))
   \<and> ((0::int) < 1 \<and> (1::int) \<le> int 1 \<and> l3type (hs_one ! nat 1) = 1
     \<and> l3mdev_table_lookup_register 1 1 9 hs_one = (- EBUSY, hs_one))
   \<and> ((l3type (hs_one ! nat 1), dev_ifindex_lookup_by_table_id (hs_one ! nat 1)) \<noteq> (1, 9)
     \<and> l3mdev_table_lookup_unregister 1 1 9 hs_one = (- EINVAL, hs_one))
   \<and> (fst (l3mdev_table_lookup_register 1 1 9 hs_one) \<noteq> 0
     \<and> snd (l3mdev_table_lookup_register 1 1 9 hs_one) = hs_one)
   \<and> (fst (l3mdev_table_lookup_unregister 1 1 9 hs_one) \<noteq> 0
     \<and> snd (l3mdev_table_lookup_unregister 1 1 9 hs_one) = hs_one)"
  using register_unregister_errors [of 0 1 9 hs_one] register_unregister_errors [of 1 1 9 hs_one]
  by (simp add: hs_one_def L3MDEV_TYPE_UNSPEC_def EINVAL_def EBUSY_def)

subsection \<open>The invariant\<close>

text \<open>
  C5, as the specification states it: in every slot the callback is set exactly when the
  stored tag is the slot's index, from the initial table on and after every register.
  Slot \<open>0\<close> of the initial table already breaks it: its stored tag is \<open>0\<close>, its own index,
  and its callback is null. And register does not refuse a null callback: on the empty
  table of one valid tag, \<open>register 1 NULL\<close> returns \<open>0\<close> and leaves slot \<open>1\<close> with tag
  \<open>1\<close> and a null callback.
\<close>

theorem registry_inv_counterexample:
  "l3mdev_handlers_init 1 ! 0 = \<lparr>l3type = int 0, dev_ifindex_lookup_by_table_id = NULL\<rparr>
   \<and> \<not> slot_registered_iff_own_tag (l3mdev_handlers_init 1)
   \<and> registry_inv 1 (l3mdev_handlers_init 1)
   \<and> l3mdev_table_lookup_register 1 1 NULL (l3mdev_handlers_init 1) =
       (0, [\<lparr>l3type = 0, dev_ifindex_lookup_by_table_id = NULL\<rparr>,
            \<lparr>l3type = 1, dev_ifindex_lookup_by_table_id = NULL\<rparr>])
   \<and> \<not> registry_inv 1 (snd (l3mdev_table_lookup_register 1 1 NULL (l3mdev_handlers_init 1)))"
  by (simp add: registry_defs l3mdev_handlers_init_def slot_registered_iff_own_tag_def
      registry_inv_def slot_ok_def)

text \<open>
  C5, amended: the invariant \<open>registry_inv\<close> (one slot per tag value; slot \<open>0\<close> empty; in
  every slot of a valid tag the callback is set exactly when the stored tag is the
  slot's index, and the stored tag is unspecified or the slot's index) holds of the
  initial table, is kept by every unregister call and by every register call whose
  callback is not null, whether the call succeeds or fails; under it, in every slot
  but slot \<open>0\<close> the callback is set exactly when the stored tag is the index, and a tag
  other than unspecified is stored in at most one slot.
\<close>

theorem registry_inv_preserved:
  "registry_inv tmax (l3mdev_handlers_init tmax)
   \<and> (registry_inv tmax hs \<and> fn \<noteq> NULL \<longrightarrow>
        registry_inv tmax (snd (l3mdev_table_lookup_register tmax l3t fn hs)))
   \<and> (registry_inv tmax hs \<longrightarrow>
        registry_inv tmax (snd (l3mdev_table_lookup_unregister tmax l3t fn hs)))
   \<and> (registry_inv tmax hs \<longrightarrow>
        (\<forall>i \<in> set [1 ..< length hs].
           (dev_ifindex_lookup_by_table_id (hs ! i) \<noteq> NULL) = (l3type (hs ! i) = int i))
        \<and> (\<forall>i \<in> set [0 ..< length hs]. \<forall>j \<in> set [0 ..< length hs].
             l3type (hs ! i) = l3type (hs ! j) \<and> l3type (hs ! i) \<noteq> L3MDEV_TYPE_UNSPEC
             \<longrightarrow> i = j))"
proof (intro conjI impI ballI)
  show "registry_inv tmax (l3mdev_handlers_init tmax)"
    by (rule registry_inv_init)
next
  assume "registry_inv tmax hs \<and> fn \<noteq> NULL"
  then show "registry_inv tmax (snd (l3mdev_table_lookup_register tmax l3t fn hs))"
    by (simp add: registry_inv_register)
next
  assume "registry_inv tmax hs"
  then show "registry_inv tmax (snd (l3mdev_table_lookup_unregister tmax l3t fn hs))"
    by (rule registry_inv_unregister)
next
  fix i
  assume inv: "registry_inv tmax hs" and i: "i \<in> set [1 ..< length hs]"
  then have "slot_ok i (hs ! i)" and "i \<noteq> 0"
    by (auto simp: registry_inv_def)
  then show "(dev_ifindex_lookup_by_table_id (hs ! i) \<noteq> NULL) = (l3type (hs ! i) = int i)"
    by (simp add: slot_ok_def)
next
  fix i j
  assume "registry_inv tmax hs" and "i \<in> set [0 ..< length hs]" and "j \<in> set [0 ..< length hs]"
    and "l3type (hs ! i) = l3type (hs ! j) \<and> l3type (hs ! i) \<noteq> L3MDEV_TYPE_UNSPEC"
  then show "i = j"
    using registry_inv_unique [of tmax hs i j] by simp
qed


theorem registry_inv_preserved_witness:
  "registry_inv 1 (l3mdev_handlers_init 1) \<and> (7::fnptr) \<noteq> NULL
   \<and> registry_inv 1 (snd (l3mdev_table_lookup_register 1 1 7 (l3mdev_handlers_init 1)))
   \<and> registry_inv 1 hs_one
   \<and> registry_inv 1 (snd (l3mdev_table_lookup_unregister 1 1 7 hs_one))
   \<and> (1::nat) \<in> set [1 ..< length hs_one]
   \<and> (dev_ifindex_lookup_by_table_id (hs_one ! 1) \<noteq> NULL) = (l3type (hs_one ! 1) = int 1)"
proof -
  have h1: "registry_inv 1 (l3mdev_handlers_init 1)"
    by (simp add: registry_inv_def slot_ok_def l3mdev_handlers_init_def L3MDEV_TYPE_UNSPEC_def)
  have h2: "registry_inv 1 hs_one"
    by (simp add: registry_inv_def slot_ok_def hs_one_def L3MDEV_TYPE_UNSPEC_def)
  have h3: "(7::fnptr) \<noteq> NULL" by simp
  have h4: "(1::nat) \<in> set [1 ..< length hs_one]" by (simp add: hs_one_def)
  note a = registry_inv_preserved [of 1 "l3mdev_handlers_init 1" 7 1]
  note b = registry_inv_preserved [of 1 hs_one 7 1]
  have "registry_inv 1 (snd (l3mdev_table_lookup_register 1 1 7 (l3mdev_handlers_init 1)))"
    using a h1 h3 by blast
  moreover have "registry_inv 1 (snd (l3mdev_table_lookup_unregister 1 1 7 hs_one))"
    using b h2 by blast
  moreover have "(dev_ifindex_lookup_by_table_id (hs_one ! 1) \<noteq> NULL) = (l3type (hs_one ! 1) = int 1)"
    using b h2 h4 by blast
  ultimately show ?thesis
    using h1 h2 h3 h4 by blast
qed

section \<open>The master of a device\<close>

lemmas vrf_model_simps = vrf_model_def l3mdev_master_ifindex_rcu_def governing_master_def

text \<open>
  C6: for a device that is not both master and slave, \<^verbatim>\<open>l3mdev_master_ifindex_rcu\<close>
  returns the device's own index when the device is an L3 master, the index of its
  immediate master when it is an L3 slave that has a master, and zero when it is neither
  master nor slave and when it is a slave without a master. For the null device it
  returns zero.
\<close>

theorem master_ifindex_cases:
  assumes "\<not> (netif_is_l3_master m d \<and> netif_is_l3_slave m d)"
  shows "(netif_is_l3_master m d \<longrightarrow> l3mdev_master_ifindex_rcu m (Some d) = ifindex m d)
     \<and> (netif_is_l3_slave m d \<and> netdev_master_upper_dev_get_rcu m d = Some master \<longrightarrow>
          l3mdev_master_ifindex_rcu m (Some d) = ifindex m master)
     \<and> (\<not> netif_is_l3_master m d \<and> \<not> netif_is_l3_slave m d \<longrightarrow>
          l3mdev_master_ifindex_rcu m (Some d) = 0)
     \<and> (netif_is_l3_slave m d \<and> netdev_master_upper_dev_get_rcu m d = None \<longrightarrow>
          l3mdev_master_ifindex_rcu m (Some d) = 0)
     \<and> l3mdev_master_ifindex_rcu m None = 0"
  using assms by (auto simp: l3mdev_master_ifindex_rcu_def)

theorem master_ifindex_cases_witness:
  "(\<not> (netif_is_l3_master vrf_model 42 \<and> netif_is_l3_slave vrf_model 42)
      \<and> netif_is_l3_master vrf_model 42
      \<and> l3mdev_master_ifindex_rcu vrf_model (Some 42) = 42)
   \<and> (\<not> (netif_is_l3_master vrf_model 5 \<and> netif_is_l3_slave vrf_model 5)
      \<and> netif_is_l3_slave vrf_model 5 \<and> netdev_master_upper_dev_get_rcu vrf_model 5 = Some 42
      \<and> l3mdev_master_ifindex_rcu vrf_model (Some 5) = 42)
   \<and> (\<not> (netif_is_l3_master vrf_model 7 \<and> netif_is_l3_slave vrf_model 7)
      \<and> \<not> netif_is_l3_master vrf_model 7 \<and> \<not> netif_is_l3_slave vrf_model 7
      \<and> l3mdev_master_ifindex_rcu vrf_model (Some 7) = 0)
   \<and> (\<not> (netif_is_l3_master vrf_model 8 \<and> netif_is_l3_slave vrf_model 8)
      \<and> netif_is_l3_slave vrf_model 8 \<and> netdev_master_upper_dev_get_rcu vrf_model 8 = None
      \<and> l3mdev_master_ifindex_rcu vrf_model (Some 8) = 0)"
proof -
  have m: "netif_is_l3_master vrf_model 42" "\<not> netif_is_l3_slave vrf_model 42"
    "\<not> netif_is_l3_master vrf_model 5" "netif_is_l3_slave vrf_model 5"
    "\<not> netif_is_l3_master vrf_model 7" "\<not> netif_is_l3_slave vrf_model 7"
    "\<not> netif_is_l3_master vrf_model 8" "netif_is_l3_slave vrf_model 8"
    "netdev_master_upper_dev_get_rcu vrf_model 5 = Some 42"
    "netdev_master_upper_dev_get_rcu vrf_model 8 = None"
    "ifindex vrf_model 42 = 42"
    by (simp_all add: vrf_model_def)
  show ?thesis
    using m master_ifindex_cases [of vrf_model 42] master_ifindex_cases [of vrf_model 5 42]
      master_ifindex_cases [of vrf_model 7] master_ifindex_cases [of vrf_model 8]
    by simp
qed

section \<open>The walk up the master relation\<close>

lemma upper_loop_unfold:
  "l3mdev_upper_loop m dev =
     (if walk_continues m dev
      then l3mdev_upper_loop m (case dev of None \<Rightarrow> None | Some d \<Rightarrow> netdev_master_upper_dev_get m d)
      else Some dev)"
  by (subst l3mdev_upper_loop.simps) (simp add: walk_continues_def split: option.splits)

lemma upper_loop_stops:
  "\<forall>j < k. walk_continues m (upper_chain m j dev) \<Longrightarrow>
   \<not> walk_continues m (upper_chain m k dev) \<Longrightarrow>
   l3mdev_upper_loop m dev = Some (upper_chain m k dev)"
proof (induction k arbitrary: dev)
  case 0
  then show ?case by (subst upper_loop_unfold) simp
next
  case (Suc k)
  let ?next = "case dev of None \<Rightarrow> None | Some d \<Rightarrow> netdev_master_upper_dev_get m d"
  from Suc.prems(1) have "walk_continues m (upper_chain m 0 dev)" by blast
  then have here: "walk_continues m dev" by simp
  have "\<forall>j < k. walk_continues m (upper_chain m j ?next)"
  proof (intro allI impI)
    fix j assume "j < k"
    then have "Suc j < Suc k" by simp
    with Suc.prems(1) have "walk_continues m (upper_chain m (Suc j) dev)" by blast
    then show "walk_continues m (upper_chain m j ?next)" by simp
  qed
  moreover from Suc.prems(2) have "\<not> walk_continues m (upper_chain m k ?next)" by simp
  ultimately have "l3mdev_upper_loop m ?next = Some (upper_chain m k ?next)"
    by (rule Suc.IH)
  with here show ?case by (subst upper_loop_unfold) simp
qed

lemma upper_loop_returns_stops:
  fixes m :: "('n, 'd) netdev_model"
  assumes "l3mdev_upper_loop m dev = Some r"
  shows "\<exists>k. \<not> walk_continues m (upper_chain m k dev)"
proof -
  have step: "\<exists>k. \<not> walk_continues m (upper_chain m k dev)"
    if IH: "\<And>m dev r. loop m dev = Some r \<Longrightarrow> \<exists>k. \<not> walk_continues m (upper_chain m k dev)"
      and body: "(case dev of None \<Rightarrow> Some None
                  | Some d \<Rightarrow> if netif_is_l3_master m d then Some (Some d)
                             else loop m (netdev_master_upper_dev_get m d)) = Some r"
    for loop and m :: "('n, 'd) netdev_model" and dev r
  proof (cases "walk_continues m dev")
    case False
    then have "\<not> walk_continues m (upper_chain m 0 dev)" by simp
    then show ?thesis by blast
  next
    case True
    then obtain d where d: "dev = Some d" "\<not> netif_is_l3_master m d"
      by (auto simp: walk_continues_def split: option.splits)
    with body have "loop m (netdev_master_upper_dev_get m d) = Some r" by simp
    then obtain k where "\<not> walk_continues m (upper_chain m k (netdev_master_upper_dev_get m d))"
      using IH by blast
    with d have "\<not> walk_continues m (upper_chain m (Suc k) dev)" by simp
    then show ?thesis by blast
  qed
  show ?thesis
    by (rule l3mdev_upper_loop.raw_induct
        [where P = "\<lambda>(m :: ('n, 'd) netdev_model) dev r. \<exists>k. \<not> walk_continues m (upper_chain m k dev)", OF step assms])
qed

lemma cyclic_chain: "upper_chain cyclic_model k (Some 9) = Some 9"
  by (induction k) (simp_all add: cyclic_model_def)

text \<open>
  C7, as the specification states it: the walk returns for every namespace and handle,
  and stops at the first step that makes no progress on a cyclic chain. The loop has no
  such check: in \<open>cyclic_model\<close>, where device \<open>9\<close> is not an L3 master and is its own
  master, the call for handle \<open>9\<close> does not return.
\<close>

theorem master_upper_cycle_counterexample:
  "l3mdev_master_upper_ifindex_by_index_rcu cyclic_model () 9 = None"
proof -
  have "l3mdev_upper_loop cyclic_model (Some 9) = None"
  proof (cases "l3mdev_upper_loop cyclic_model (Some 9)")
    case (Some r)
    then obtain k where "\<not> walk_continues cyclic_model (upper_chain cyclic_model k (Some 9))"
      using upper_loop_returns_stops by blast
    then show ?thesis by (simp add: cyclic_chain) (simp add: walk_continues_def cyclic_model_def)
  qed simp
  then show ?thesis
    by (simp add: l3mdev_master_upper_ifindex_by_index_rcu_def cyclic_model_def)
qed

text \<open>
  C7, amended: when the chain of masters above the device under the handle reaches,
  after \<open>k\<close> steps through devices that exist and are not L3 masters, either an L3 master
  or its end, the walk returns: the index of that L3 master, the first on the chain, or
  zero when the chain ended (also when the handle resolves to no device). The walk does
  not detect cycles.
\<close>

theorem master_upper_walk_result:
  assumes "\<forall>j \<in> set [0 ..< k]. walk_continues m (upper_chain m j (dev_get_by_index_rcu m net idx))"
    and "\<not> walk_continues m (upper_chain m k (dev_get_by_index_rcu m net idx))"
  shows "l3mdev_master_upper_ifindex_by_index_rcu m net idx =
           Some (case upper_chain m k (dev_get_by_index_rcu m net idx) of
                   Some d \<Rightarrow> ifindex m d | None \<Rightarrow> 0)"
proof -
  from assms(1) have "\<forall>j < k. walk_continues m (upper_chain m j (dev_get_by_index_rcu m net idx))"
    by simp
  then have "l3mdev_upper_loop m (dev_get_by_index_rcu m net idx) =
      Some (upper_chain m k (dev_get_by_index_rcu m net idx))"
    using assms(2) by (rule upper_loop_stops)
  then show ?thesis
    by (simp add: l3mdev_master_upper_ifindex_by_index_rcu_def)
qed

theorem master_upper_walk_result_witness:
  "walk_continues chain_model (upper_chain chain_model 0 (dev_get_by_index_rcu chain_model () 5))
   \<and> walk_continues chain_model (upper_chain chain_model 1 (dev_get_by_index_rcu chain_model () 5))
   \<and> \<not> walk_continues chain_model (upper_chain chain_model 2 (dev_get_by_index_rcu chain_model () 5))
   \<and> l3mdev_master_upper_ifindex_by_index_rcu chain_model () 5 = Some 42
   \<and> \<not> walk_continues chain_model (upper_chain chain_model 0 (dev_get_by_index_rcu chain_model () 9))
   \<and> l3mdev_master_upper_ifindex_by_index_rcu chain_model () 9 = Some 0"
proof -
  let ?dev5 = "dev_get_by_index_rcu chain_model () 5"
  let ?dev9 = "dev_get_by_index_rcu chain_model () 9"
  have g: "?dev5 = Some 5" "?dev9 = None"
    by (simp_all add: chain_model_def)
  have c: "upper_chain chain_model 0 ?dev5 = Some 5"
    "upper_chain chain_model 1 ?dev5 = Some 6"
    "upper_chain chain_model 2 ?dev5 = Some 42"
    "upper_chain chain_model 0 ?dev9 = None"
    unfolding g by (simp_all add: chain_model_def numeral_2_eq_2)
  have w: "walk_continues chain_model (Some 5)" "walk_continues chain_model (Some 6)"
    "\<not> walk_continues chain_model (Some 42)" "\<not> walk_continues chain_model None"
    by (simp_all add: walk_continues_def chain_model_def)
  have w0: "walk_continues chain_model (upper_chain chain_model 0 ?dev5)"
    and w1: "walk_continues chain_model (upper_chain chain_model 1 ?dev5)"
    and h2: "\<not> walk_continues chain_model (upper_chain chain_model 2 ?dev5)"
    and h3: "\<not> walk_continues chain_model (upper_chain chain_model 0 ?dev9)"
    unfolding c by (rule w)+
  have h1: "\<forall>j \<in> set [0 ..< 2]. walk_continues chain_model (upper_chain chain_model j ?dev5)"
  proof
    fix j :: nat assume "j \<in> set [0 ..< 2]"
    then have "j = 0 \<or> j = 1" by auto
    with w0 w1 show "walk_continues chain_model (upper_chain chain_model j ?dev5)" by blast
  qed
  have h0: "\<forall>j \<in> set [0 ..< 0]. walk_continues chain_model (upper_chain chain_model j ?dev9)"
    by simp
  have i: "ifindex chain_model 42 = 42" by (simp add: chain_model_def)
  have "l3mdev_master_upper_ifindex_by_index_rcu chain_model () 5 = Some 42"
    using master_upper_walk_result [OF h1 h2] unfolding c by (simp add: i)
  moreover have "l3mdev_master_upper_ifindex_by_index_rcu chain_model () 9 = Some 0"
    using master_upper_walk_result [OF h0 h3] unfolding c by simp
  ultimately show ?thesis using w0 w1 h2 h3 by blast
qed

section \<open>Rewriting a flow\<close>

lemma update_flow_eq:
  "l3mdev_update_flow m skip net fl =
     (case governing_master m net (flowi_oif fl) of
        Some x \<Rightarrow> fl\<lparr>flowi_oif := x, flowi_flags := flowi_flags fl OR skip\<rparr>
      | None \<Rightarrow>
          (case governing_master m net (flowi_iif fl) of
             Some y \<Rightarrow> fl\<lparr>flowi_iif := y, flowi_flags := flowi_flags fl OR skip\<rparr>
           | None \<Rightarrow> fl))"
  by (simp add: l3mdev_update_flow_def l3mdev_update_flow_iif_def governing_master_def Let_def
      split: option.splits)

lemma or_skip_twice: "(w OR skip) OR skip = w OR (skip :: 8 word)"
  by (simp add: or.assoc)

text \<open>
  C8: when the flow's output interface resolves to a governing master \<open>x\<close>, the flow
  after \<^verbatim>\<open>l3mdev_update_flow\<close> is the flow before it with the output interface set
  to \<open>x\<close> and the skip flag added, whatever the input interface is; when the output
  interface does not resolve and the input interface resolves to a governing master
  \<open>y\<close>, it is the flow before with the input interface set to \<open>y\<close> and the skip flag
  added. In both cases the skip flag is set in the resulting flags.
\<close>

theorem update_flow_priority:
  "(governing_master m net (flowi_oif fl) = Some x \<longrightarrow>
      l3mdev_update_flow m skip net fl =
        fl\<lparr>flowi_oif := x, flowi_flags := flowi_flags fl OR skip\<rparr>)
   \<and> (governing_master m net (flowi_oif fl) = None
        \<and> governing_master m net (flowi_iif fl) = Some y \<longrightarrow>
      l3mdev_update_flow m skip net fl =
        fl\<lparr>flowi_iif := y, flowi_flags := flowi_flags fl OR skip\<rparr>)
   \<and> (flowi_flags fl OR skip) AND skip = skip"
  by (simp add: update_flow_eq)

theorem update_flow_priority_witness:
  "(governing_master vrf_model () (flowi_oif flow_oif5) = Some 42
      \<and> l3mdev_update_flow vrf_model 4 () flow_oif5 =
          \<lparr>flowi_oif = 42, flowi_iif = 8, flowi_flags = 5\<rparr>)
   \<and> (governing_master vrf_model () (flowi_oif flow_iif5) = None
      \<and> governing_master vrf_model () (flowi_iif flow_iif5) = Some 42
      \<and> l3mdev_update_flow vrf_model 4 () flow_iif5 =
          \<lparr>flowi_oif = 0, flowi_iif = 42, flowi_flags = 5\<rparr>)"
proof -
  have g: "governing_master vrf_model () (flowi_oif flow_oif5) = Some 42"
    "governing_master vrf_model () (flowi_oif flow_iif5) = None"
    "governing_master vrf_model () (flowi_iif flow_iif5) = Some 42"
    by (simp_all add: vrf_model_simps flow_oif5_def flow_iif5_def)
  show ?thesis
    using g update_flow_priority [of vrf_model "()" flow_oif5 42 4]
      update_flow_priority [of vrf_model "()" flow_iif5 _ 4 42]
    by (simp add: flow_oif5_def flow_iif5_def)
qed

text \<open>
  C10: \<^verbatim>\<open>l3mdev_update_flow\<close> leaves every field other than the output interface,
  the input interface and the flags as it was; when neither interface resolves to a
  governing master the whole flow, flags included, is unchanged; when the output
  interface resolves, the input interface is unchanged.
\<close>

theorem update_flow_frame:
  "flowi.more (l3mdev_update_flow m skip net fl) = flowi.more fl
   \<and> (governing_master m net (flowi_oif fl) = None
        \<and> governing_master m net (flowi_iif fl) = None \<longrightarrow>
      l3mdev_update_flow m skip net fl = fl)
   \<and> (governing_master m net (flowi_oif fl) \<noteq> None \<longrightarrow>
      flowi_iif (l3mdev_update_flow m skip net fl) = flowi_iif fl)"
  by (auto simp: update_flow_eq split: option.splits)

theorem update_flow_frame_witness:
  "(governing_master vrf_model () (flowi_oif flow_none) = None
      \<and> governing_master vrf_model () (flowi_iif flow_none) = None
      \<and> l3mdev_update_flow vrf_model 4 () flow_none = flow_none)
   \<and> (governing_master vrf_model () (flowi_oif flow_oif5) \<noteq> None
      \<and> flowi_iif (l3mdev_update_flow vrf_model 4 () flow_oif5) = 8)"
proof -
  have g: "governing_master vrf_model () (flowi_oif flow_none) = None"
    "governing_master vrf_model () (flowi_iif flow_none) = None"
    "governing_master vrf_model () (flowi_oif flow_oif5) \<noteq> None"
    by (simp_all add: vrf_model_simps flow_oif5_def flow_none_def)
  have i: "flowi_iif flow_oif5 = 8" by (simp add: flow_oif5_def)
  show ?thesis
    using g i update_flow_frame [of vrf_model 4 "()" flow_none]
      update_flow_frame [of vrf_model 4 "()" flow_oif5]
    by simp
qed

lemma governing_master_fixed:
  assumes dm: "netdev_data_model m net"
    and g: "governing_master m net idx = Some x"
  shows "governing_master m net x = Some x"
proof -
  from g obtain d where d: "idx \<noteq> 0" "dev_get_by_index_rcu m net idx = Some d"
    and x: "l3mdev_master_ifindex_rcu m (Some d) = x" "x \<noteq> 0"
    by (auto simp: governing_master_def Let_def split: if_splits option.splits)
  from dm d(2) have own: "ifindex m d = idx"
    by (simp add: netdev_data_model_def)
  show ?thesis
  proof (cases "netif_is_l3_master m d")
    case True
    with x(1) own have "x = idx"
      by (simp add: l3mdev_master_ifindex_rcu_def)
    with g show ?thesis by simp
  next
    case False
    with x obtain u where u: "netif_is_l3_slave m d"
        "netdev_master_upper_dev_get_rcu m d = Some u" "ifindex m u = x"
      by (auto simp: l3mdev_master_ifindex_rcu_def split: if_splits option.splits)
    from dm d(2) u(1,2) have "netif_is_l3_master m u"
      and "dev_get_by_index_rcu m net (ifindex m u) = Some u"
      unfolding netdev_data_model_def by blast+
    with u(3) x(2) show ?thesis
      by (simp add: governing_master_def l3mdev_master_ifindex_rcu_def)
  qed
qed

text \<open>
  C9: under an unchanged device model (one that meets the data model of devices in the
  namespace of the call), applying \<^verbatim>\<open>l3mdev_update_flow\<close> twice to a flow gives
  exactly the flow, interface handles and flags, that applying it once gives.
\<close>

theorem update_flow_idempotent:
  assumes "netdev_data_model m net"
  shows "l3mdev_update_flow m skip net (l3mdev_update_flow m skip net fl) =
         l3mdev_update_flow m skip net fl"
proof (cases "governing_master m net (flowi_oif fl)")
  case (Some x)
  with assms have "governing_master m net x = Some x"
    by (simp add: governing_master_fixed)
  with Some show ?thesis
    by (simp add: update_flow_eq or_skip_twice)
next
  case oif: None
  show ?thesis
  proof (cases "governing_master m net (flowi_iif fl)")
    case None
    with oif show ?thesis by (simp add: update_flow_eq)
  next
    case (Some y)
    with assms have "governing_master m net y = Some y"
      by (simp add: governing_master_fixed)
    with oif Some show ?thesis
      by (simp add: update_flow_eq or_skip_twice)
  qed
qed

theorem update_flow_idempotent_witness:
  "netdev_data_model vrf_model ()
   \<and> l3mdev_update_flow vrf_model 4 () (l3mdev_update_flow vrf_model 4 () flow_oif5) =
       l3mdev_update_flow vrf_model 4 () flow_oif5
   \<and> l3mdev_update_flow vrf_model 4 () flow_oif5 =
       \<lparr>flowi_oif = 42, flowi_iif = 8, flowi_flags = 5\<rparr>
   \<and> l3mdev_update_flow vrf_model 4 () (l3mdev_update_flow vrf_model 4 () flow_iif5) =
       l3mdev_update_flow vrf_model 4 () flow_iif5
   \<and> l3mdev_update_flow vrf_model 4 () flow_iif5 =
       \<lparr>flowi_oif = 0, flowi_iif = 42, flowi_flags = 5\<rparr>"
proof -
  have h: "netdev_data_model vrf_model ()"
    by (auto simp: netdev_data_model_def vrf_model_def split: if_splits)
  have "l3mdev_update_flow vrf_model 4 () flow_oif5 =
       \<lparr>flowi_oif = 42, flowi_iif = 8, flowi_flags = 5\<rparr>"
    and "l3mdev_update_flow vrf_model 4 () flow_iif5 =
       \<lparr>flowi_oif = 0, flowi_iif = 42, flowi_flags = 5\<rparr>"
    by (simp_all add: update_flow_eq vrf_model_simps flow_oif5_def flow_iif5_def)
  then show ?thesis
    using h update_flow_idempotent [OF h, of 4 flow_oif5]
      update_flow_idempotent [OF h, of 4 flow_iif5]
    by simp
qed

end
